theory Spec2Isabelle
  imports Main "HOL-Library.Word" "HOL-Library.Sublist"
begin

section \<open>crio-lxc-init: the hand-off program run inside a new container\<close>

text \<open>
  A shallow embedding of \<^verbatim>\<open>cmd/init/crio-lxc-init.c\<close>. The program reads an
  argument vector and an environment that the runtime staged in two files, names
  itself after the container, writes the container id to a FIFO and calls
  \<^verbatim>\<open>execvp\<close>.

  Platform read off the target of the program (Linux, gcc, x86-64): \<^verbatim>\<open>char\<close> is a
  signed 8-bit integer, \<^verbatim>\<open>int\<close> is converted to \<^verbatim>\<open>char\<close> modulo 256,
  pointers and \<^verbatim>\<open>size_t\<close> have 64 bits, \<^verbatim>\<open>E2BIG\<close> is 7 and \<^verbatim>\<open>EINVAL\<close> is 22.

  What the operating system and the C library decide is an input of the model: the
  contents of the files (or that they cannot be opened), the values returned by
  \<^verbatim>\<open>fclose\<close>, \<^verbatim>\<open>prctl\<close>, \<^verbatim>\<open>open\<close>, \<^verbatim>\<open>write\<close>, \<^verbatim>\<open>close\<close>, whether
  \<^verbatim>\<open>execvp\<close> succeeds, the value of \<^verbatim>\<open>errno\<close> on entry, and the indeterminate
  contents of uninitialised stack variables. Reads of an open file and memory
  allocation are taken not to fail.
\<close>

subsection \<open>Bytes, C strings and memory blocks\<close>

type_synonym byte = "8 word"

type_synonym env = "byte list \<rightharpoonup> byte list"

definition EOF :: int where
  "EOF = - 1"

definition E2BIG :: int where
  "E2BIG = 7"

definition EINVAL :: int where
  "EINVAL = 22"

definition NL :: byte where
  "NL = 10"

definition EQUALS :: byte where
  "EQUALS = 61"

definition SIZE_MAX :: nat where
  "SIZE_MAX = 2 ^ 64 - 1"

text \<open>Text for the examples: the bytes of an ASCII string.\<close>

definition bytes :: "string \<Rightarrow> byte list" where
  "bytes s = map of_char s"

text \<open>The conversion of an \<^verbatim>\<open>int\<close> to \<^verbatim>\<open>char\<close> in \<^verbatim>\<open>c = getc(f)\<close>.\<close>

definition to_char :: "int \<Rightarrow> byte" where
  "to_char r = word_of_int r"

text \<open>
  The C string that starts at the beginning of a block of memory: the bytes before
  the first NUL.
\<close>

definition cstr :: "byte list \<Rightarrow> byte list" where
  "cstr m = takeWhile (\<lambda>b. b \<noteq> 0) m"

definition strlen :: "byte list \<Rightarrow> nat" where
  "strlen m = length (cstr m)"

text \<open>\<^verbatim>\<open>store m i xs\<close> writes the bytes \<open>xs\<close> into \<open>m\<close> from index \<open>i\<close> on.\<close>

definition store :: "byte list \<Rightarrow> nat \<Rightarrow> byte list \<Rightarrow> byte list" where
  "store m i xs = take i m @ xs @ drop (i + length xs) m"

text \<open>An array write that is checked against the array's bounds.\<close>

definition poke :: "'a list \<Rightarrow> nat \<Rightarrow> 'a \<Rightarrow> 'a list option" where
  "poke a i x = (if i < length a then Some (a[i := x]) else None)"

subsection \<open>C library functions, as the C standard and POSIX describe them\<close>

text \<open>\<^verbatim>\<open>getc\<close>: the next byte as an \<^verbatim>\<open>unsigned char\<close> converted to \<^verbatim>\<open>int\<close>, or \<^verbatim>\<open>EOF\<close>.\<close>

fun getc :: "byte list \<Rightarrow> int \<times> byte list" where
  "getc [] = (EOF, [])"
| "getc (b # bs) = (uint b, bs)"

text \<open>
  \<^verbatim>\<open>fgets(buf, n, f)\<close> reads at most \<open>n - 1\<close> bytes, stops after a newline, and
  stores them with a NUL behind. It returns NULL (here \<open>None\<close>) when \<open>n \<le> 0\<close>, and
  at end-of-file when nothing was read.
\<close>

fun fgets_read :: "nat \<Rightarrow> byte list \<Rightarrow> byte list" where
  "fgets_read 0 f = []"
| "fgets_read (Suc k) [] = []"
| "fgets_read (Suc k) (b # bs) = (if b = NL then [b] else b # fgets_read k bs)"

definition fgets :: "byte list \<Rightarrow> int \<Rightarrow> byte list \<Rightarrow> (byte list \<times> byte list) option" where
  "fgets buf n f =
     (if n \<le> 0 then None
      else if n = 1 then Some (store buf 0 [0], f)
      else if f = [] then None
      else let chunk = fgets_read (nat (n - 1)) f
           in Some (store buf 0 (chunk @ [0]), drop (length chunk) f))"

text \<open>\<^verbatim>\<open>strndup(s, n)\<close>: a fresh copy of at most \<open>n\<close> bytes of the string \<open>s\<close>.\<close>

definition strndup :: "byte list \<Rightarrow> nat \<Rightarrow> byte list" where
  "strndup s n = take n (cstr s)"

text \<open>
  \<^verbatim>\<open>strncpy(dst, src, n)\<close> writes exactly \<open>n\<close> bytes to \<open>dst\<close>: the string \<open>src\<close>, cut
  at \<open>n\<close> bytes or padded with NULs. It is \<open>None\<close> when \<open>dst\<close> has fewer than \<open>n\<close>
  bytes (the write would run past the array).
\<close>

definition strncpy :: "byte list \<Rightarrow> byte list \<Rightarrow> nat \<Rightarrow> byte list option" where
  "strncpy dst src n =
     (if n \<le> length dst
      then Some (store dst 0 (take n (cstr src) @ replicate (n - strlen src) 0))
      else None)"

text \<open>
  \<^verbatim>\<open>setenv(name, value, 1)\<close> inserts or overwrites; it fails (\<open>None\<close>, for the
  return value -1) on an empty name or a name with \<^verbatim>\<open>=\<close> in it.
\<close>

definition setenv :: "byte list \<Rightarrow> byte list \<Rightarrow> env \<Rightarrow> env option" where
  "setenv name val e =
     (if name = [] \<or> EQUALS \<in> set name then None else Some (e(name \<mapsto> val)))"

subsection \<open>writefifo\<close>

text \<open>
  The three system calls of \<^verbatim>\<open>writefifo\<close> and what they return: \<^verbatim>\<open>open\<close> a
  descriptor or -1, \<^verbatim>\<open>write\<close> the number of bytes it took or -1, \<^verbatim>\<open>close\<close> 0 or -1.
\<close>

record fifo_os =
  open_ret :: int
  write_ret :: int
  close_ret :: int

text \<open>
  The result is the returned status and the bytes that reached the pipe.
  \<^verbatim>\<open>
  fd = open(fifo, O_WRONLY);
  if (fd == -1) return -1;
  if (write(fd, msg, strlen(msg)) == -1) return -1;
  return close(fd);
  \<close>
\<close>

definition writefifo :: "fifo_os \<Rightarrow> byte list \<Rightarrow> int \<times> byte list" where
  "writefifo os msg =
     (if open_ret os = - 1 then (- 1, [])
      else if write_ret os = - 1 then (- 1, [])
      else (close_ret os, take (nat (write_ret os)) (cstr msg)))"

subsection \<open>readlines\<close>

text \<open>
  \<^verbatim>\<open>
  for(n = 0; n < maxlines-1; n++) {
    line = fgets(buf, buflen, f);
    if (line == NULL) break;
    lines[n] = strndup(line, strlen(line)-1);
  }
  \<close>
  \<open>lines\<close> is the caller's array of string pointers (\<open>None\<close> is the null pointer);
  the loop is \<open>None\<close> when it writes past the end of that array. The subtraction
  \<^verbatim>\<open>strlen(line)-1\<close> is done in \<^verbatim>\<open>size_t\<close>.
\<close>

definition minus_one :: "nat \<Rightarrow> nat" where
  "minus_one k = (if k = 0 then SIZE_MAX else k - 1)"

function readlines_loop ::
  "int \<Rightarrow> int \<Rightarrow> nat \<Rightarrow> byte list \<Rightarrow> byte list \<Rightarrow> byte list option list
   \<Rightarrow> (nat \<times> byte list \<times> byte list \<times> byte list option list) option" where
  "readlines_loop maxlines buflen n buf f lines =
     (if int n < maxlines - 1 then
        (case fgets buf buflen f of
           None \<Rightarrow> Some (n, buf, f, lines)
         | Some (buf', f') \<Rightarrow>
             (case poke lines n (Some (strndup buf' (minus_one (strlen buf')))) of
                None \<Rightarrow> None
              | Some lines' \<Rightarrow> readlines_loop maxlines buflen (Suc n) buf' f' lines'))
      else Some (n, buf, f, lines))"
  by pat_completeness auto
termination
  by (relation "measure (\<lambda>(maxlines, buflen, n, buf, f, lines). nat (maxlines - 1 - int n))") auto

declare readlines_loop.simps [simp del]

text \<open>
  \<^verbatim>\<open>readlines(path, buf, buflen, lines, maxlines)\<close>. The file at \<open>path\<close> is its
  contents, or \<open>None\<close> when \<^verbatim>\<open>fopen\<close> fails; \<open>fclose_ret\<close> is what \<^verbatim>\<open>fclose\<close>
  returns. \<^verbatim>\<open>errno\<close> is set to 0 before the loop and nothing in the model sets it,
  so the test of \<^verbatim>\<open>errno\<close> after the loop passes. The result: the returned value,
  the buffer and the array as the call leaves them.
\<close>

definition readlines ::
  "byte list option \<Rightarrow> int \<Rightarrow> byte list \<Rightarrow> int \<Rightarrow> byte list option list \<Rightarrow> int
   \<Rightarrow> (int \<times> byte list \<times> byte list option list) option" where
  "readlines path fclose_ret buf buflen lines maxlines =
     (case path of
        None \<Rightarrow> Some (- 1, buf, lines)
      | Some f \<Rightarrow>
          (case readlines_loop maxlines buflen 0 buf f lines of
             None \<Rightarrow> None
           | Some (n, buf', f', lines') \<Rightarrow>
               if fclose_ret \<noteq> 0 then Some (- 1, buf', lines')
               else (case poke lines' n None of
                       None \<Rightarrow> None
                     | Some lines'' \<Rightarrow> Some (int n, buf', lines''))))"

text \<open>
  The staged form of the command-line file: the lines, each followed by a newline.
  A \<open>text_line\<close> has no newline and no NUL in it, and with its newline and the NUL
  that \<^verbatim>\<open>fgets\<close> adds it fits a buffer of \<open>buflen\<close> bytes.
\<close>

definition cmdline_stream :: "byte list list \<Rightarrow> byte list" where
  "cmdline_stream ls = concat (map (\<lambda>l. l @ [NL]) ls)"

definition text_line :: "int \<Rightarrow> byte list \<Rightarrow> bool" where
  "text_line buflen l \<longleftrightarrow> NL \<notin> set l \<and> 0 \<notin> set l \<and> int (length l) + 2 \<le> buflen"

subsection \<open>load\_environment\<close>

text \<open>
  The inner loop, which reads one record into \<open>buf\<close>:
  \<^verbatim>\<open>
  for(int i = 0; i < buflen; i++) {
    c = getc(f);
    if (c == EOF) { buf[i] = '\0'; break; }
    buf[i] = c;
    if (c == '\0') break;
    if (i == buflen-1) return E2BIG;
    if (value == NULL && c == '=') { buf[i] = '\0'; value = buf + ( i+1 ); }
  }
  \<close>
  \<open>value\<close> is the index in \<open>buf\<close> the pointer refers to, \<open>None\<close> for NULL. The
  comparison \<^verbatim>\<open>c == EOF\<close> promotes the signed \<^verbatim>\<open>char\<close> to \<^verbatim>\<open>int\<close>.
\<close>

datatype scan =
  Return int "byte list"
| Break "byte list" "nat option" byte "byte list"

function read_record ::
  "int \<Rightarrow> nat \<Rightarrow> byte list \<Rightarrow> nat option \<Rightarrow> byte \<Rightarrow> byte list \<Rightarrow> scan" where
  "read_record buflen i buf val c f =
     (if int i < buflen then
        (case getc f of
           (r, f') \<Rightarrow>
             if sint (to_char r) = EOF then Break (buf[i := 0]) val (to_char r) f'
             else if to_char r = 0 then Break (buf[i := to_char r]) val (to_char r) f'
             else if int i = buflen - 1 then Return E2BIG f'
             else if val = None \<and> to_char r = EQUALS
               then read_record buflen (Suc i) (buf[i := to_char r, i := 0]) (Some (i + 1)) (to_char r) f'
               else read_record buflen (Suc i) (buf[i := to_char r]) val (to_char r) f')
      else Break buf val c f)"
  by pat_completeness auto
termination
  by (relation "measure (\<lambda>(buflen, i, buf, val, c, f). nat (buflen - int i))") auto

declare read_record.simps [simp del]

text \<open>
  The inner loop never reads backwards, and a record in which it found the first
  \<^verbatim>\<open>=\<close> has consumed at least that byte. This is what makes the outer loop
  terminate.
\<close>

lemma read_record_unread:
  "read_record buflen i buf val c f = Break buf' val' c' f' \<Longrightarrow>
   length f' \<le> length f \<and> (val = None \<and> val' \<noteq> None \<longrightarrow> length f' < length f)"
proof (induction buflen i buf val c f rule: read_record.induct)
  case (1 buflen i buf val c f)
  show ?case
  proof (cases f)
    case Nil
    with "1.prems" show ?thesis
      by (auto simp: read_record.simps [of buflen i buf val c "[]"] EOF_def to_char_def
          split: if_splits)
  next
    case (Cons b bs)
    with "1.prems" "1.IH" show ?thesis
      by (subst (asm) read_record.simps) (auto split: if_splits)
  qed
qed

text \<open>
  The outer loop. \<open>c\<close> is read by the loop test before anything was assigned to it:
  its first value is what the stack held.
  \<^verbatim>\<open>
  while(c != EOF) {
    char *value = NULL;
    for (...) { ... }
    if (errno != 0) return -1;
    if (value == NULL) return EINVAL;
    if (setenv(buf, value, 1) != 0) return -1;
  }
  \<close>
  The result is the value returned from inside the loop (\<open>None\<close> when the loop is
  left by its test), the environment, and the part of the file not read.
\<close>

function load_loop ::
  "int \<Rightarrow> int \<Rightarrow> byte \<Rightarrow> byte list \<Rightarrow> byte list \<Rightarrow> env \<Rightarrow> int option \<times> env \<times> byte list" where
  "load_loop errno buflen c buf f e =
     (if sint c \<noteq> EOF then
        (case read_record buflen 0 buf None c f of
           Return r f' \<Rightarrow> (Some r, e, f')
         | Break buf' val c' f' \<Rightarrow>
             if errno \<noteq> 0 then (Some (- 1), e, f')
             else (case val of
                     None \<Rightarrow> (Some EINVAL, e, f')
                   | Some v \<Rightarrow>
                       (case setenv (cstr buf') (cstr (drop v buf')) e of
                          None \<Rightarrow> (Some (- 1), e, f')
                        | Some e' \<Rightarrow> load_loop errno buflen c' buf' f' e')))
      else (None, e, f))"
  by pat_completeness auto
termination
proof (relation "measure (\<lambda>(errno, buflen, c, buf, f, e). length f)")
  show "wf (measure (\<lambda>(errno, buflen, c, buf, f, e). length f))"
    by simp
next
  fix errno buflen :: int and c c' :: byte and buf buf' f f' :: "byte list"
    and e e' :: env and val :: "nat option" and v :: nat
  assume "read_record buflen 0 buf None c f = Break buf' val c' f'" and "val = Some v"
  then have "length f' < length f"
    using read_record_unread [of buflen 0 buf None c f buf' val c' f'] by simp
  then show "((errno, buflen, c', buf', f', e'), (errno, buflen, c, buf, f, e))
      \<in> measure (\<lambda>(errno, buflen, c, buf, f, e). length f)"
    by simp
qed

declare load_loop.simps [simp del]

text \<open>
  \<^verbatim>\<open>load_environment(path, buf, buflen)\<close>. The file at \<open>path\<close> is its contents, or
  \<open>None\<close> when \<^verbatim>\<open>fopen\<close> fails; \<open>fclose_ret\<close> is what \<^verbatim>\<open>fclose\<close> returns, \<open>errno\<close>
  the value of \<^verbatim>\<open>errno\<close> during the call, \<open>c0\<close> the first value of \<open>c\<close>, \<open>e\<close> the
  process environment. After the loop:
  \<^verbatim>\<open>
  if (errno != 0) return -1;
  return fclose(f);
  \<close>
  The result: the returned value, the process environment, the unread part of the
  file.
\<close>

definition load_environment ::
  "byte list option \<Rightarrow> int \<Rightarrow> int \<Rightarrow> byte \<Rightarrow> byte list \<Rightarrow> int \<Rightarrow> env \<Rightarrow> int \<times> env \<times> byte list" where
  "load_environment path fclose_ret errno c0 buf buflen e =
     (case path of
        None \<Rightarrow> (- 1, e, [])
      | Some f \<Rightarrow>
          (case load_loop errno buflen c0 buf f e of
             (Some r, e', f') \<Rightarrow> (r, e', f')
           | (None, e', f') \<Rightarrow> if errno \<noteq> 0 then (- 1, e', f') else (fclose_ret, e', f')))"

text \<open>
  The staged form of the environment file: the records \<open>k=v\<close>, each followed by
  a NUL. A record is \<open>loadable\<close> with a buffer of \<open>buflen\<close> bytes when its key is not
  empty and has no \<^verbatim>\<open>=\<close>, neither key nor value holds a NUL or the byte 255, and
  the record is shorter than the buffer.
\<close>

definition record_bytes :: "byte list \<times> byte list \<Rightarrow> byte list" where
  "record_bytes kv = fst kv @ EQUALS # snd kv @ [0]"

definition environ_stream :: "(byte list \<times> byte list) list \<Rightarrow> byte list" where
  "environ_stream rs = concat (map record_bytes rs)"

definition loadable :: "int \<Rightarrow> byte list \<times> byte list \<Rightarrow> bool" where
  "loadable buflen kv \<longleftrightarrow>
     fst kv \<noteq> [] \<and> EQUALS \<notin> set (fst kv) \<and> 0 \<notin> set (fst kv) \<and> 255 \<notin> set (fst kv) \<and>
     0 \<notin> set (snd kv) \<and> 255 \<notin> set (snd kv) \<and>
     int (length (fst kv) + length (snd kv) + 1) < buflen"

subsection \<open>main\<close>

text \<open>
  \<^verbatim>\<open>
  strncpy(pname, cid, sizeof(pname));
  pname[sizeof(pname)-1] = '\0';
  \<close>
  \<open>pname\<close> is the array as the stack holds it; \<^verbatim>\<open>sizeof(pname)\<close> is its length.
\<close>

definition process_name :: "byte list \<Rightarrow> byte list \<Rightarrow> byte list option" where
  "process_name pname cid =
     (case strncpy pname cid (length pname) of
        None \<Rightarrow> None
      | Some p \<Rightarrow> poke p (length pname - 1) 0)"

text \<open>
  Everything \<^verbatim>\<open>main\<close> takes from outside: its arguments, the two staged files,
  what the system calls return, and what its uninitialised variables hold.
\<close>

record world =
  argv :: "byte list list"
  cmdline_txt :: "byte list option"
  cmdline_fclose :: int
  environ_txt :: "byte list option"
  environ_fclose :: int
  stack_buf :: "byte list"
  stack_c :: byte
  environment :: env
  prctl_ret :: int
  fifo :: fifo_os
  execvp_ok :: bool

text \<open>
  How a run ends: the process exits with a status, having printed diagnostics; or
  \<^verbatim>\<open>execvp\<close> replaces the image, and the new program gets the argument vector and
  the environment; or the program does something the C standard leaves undefined.
\<close>

datatype outcome =
  Exit int "string list"
| Exec "byte list list" env "string list"
| Undefined string

text \<open>The argument vector that \<^verbatim>\<open>execvp\<close> reads: the pointers before the first null.\<close>

definition argv_of :: "byte list option list \<Rightarrow> byte list list" where
  "argv_of args = map the (takeWhile (\<lambda>a. a \<noteq> None) args)"

text \<open>
  \<^verbatim>\<open>main\<close>. \<open>buf\<close> has \<open>1024*1024\<close> bytes, \<open>args\<close> 256 pointers and
  \<open>pname\<close> 16 bytes; \<^verbatim>\<open>sizeof(args)\<close>, which is passed as \<open>maxlines\<close>, is 2048.
  \<^verbatim>\<open>errno\<close> is 0 when \<^verbatim>\<open>load_environment\<close> starts: \<^verbatim>\<open>readlines\<close> set it so. After
  a failed \<^verbatim>\<open>execvp\<close> control reaches the end of \<^verbatim>\<open>main\<close>, which returns 0.
  \<open>pname\<close> and \<open>args\<close> start as zeros and null pointers here; what they hold at
  first is never read (\<^verbatim>\<open>strncpy\<close> writes every byte of \<open>pname\<close>, and \<^verbatim>\<open>execvp\<close>
  reads \<open>args\<close> up to the null pointer that \<^verbatim>\<open>readlines\<close> wrote). \<open>stack_buf\<close> stands
  for the 1048576 bytes of \<open>buf\<close>. The diagnostics are the messages given to
  \<^verbatim>\<open>perror\<close> and \<^verbatim>\<open>fprintf\<close>, without what these functions add.
\<close>

definition main :: "world \<Rightarrow> outcome" where
  "main w =
     (if length (argv w) \<noteq> 2 then Exit 1 [''invalid number of arguments'']
      else
        (case process_name (replicate 16 0) (argv w ! 1) of
           None \<Rightarrow> Undefined ''pname''
         | Some pname \<Rightarrow>
        (case readlines (cmdline_txt w) (cmdline_fclose w) (stack_buf w) 1048576
                (replicate 256 None) 2048 of
           None \<Rightarrow> Undefined ''args''
         | Some (r, buf, args) \<Rightarrow>
             if r = - 1 then Exit 1 [''failed to read cmdline file'']
             else
               (case load_environment (environ_txt w) (environ_fclose w) 0 (stack_c w)
                       buf 1048576 (environment w) of
                  (r', e, rest) \<Rightarrow>
                    if r' = - 1 then Exit 1 [''failed to read environment file'']
                    else
                      let warn = (if prctl_ret w = - 1 then [''failed to set process name'']
                                  else [])
                      in if fst (writefifo (fifo w) (argv w ! 1)) = - 1
                         then Exit 1 (warn @ [''failed to write syncfifo''])
                         else (case args ! 0 of
                                 None \<Rightarrow> Undefined ''execvp(NULL, args)''
                               | Some file \<Rightarrow>
                                   if execvp_ok w then Exec (argv_of args) e warn
                                   else Exit 0 warn)))))"

text \<open>
  The run of the specification's end-to-end property: the command line
  \<^verbatim>\<open>/bin/echo hello\<close>, the environment \<^verbatim>\<open>FOO=bar\<close>, a reader on the pipe, every
  system call successful. The failing runs below differ from it in one field.
\<close>

definition end_to_end :: world where
  "end_to_end =
     \<lparr>argv = [bytes ''crio-lxc-init'', bytes ''c1''],
      cmdline_txt = Some (cmdline_stream [bytes ''/bin/echo'', bytes ''hello'']),
      cmdline_fclose = 0,
      environ_txt = Some (environ_stream [(bytes ''FOO'', bytes ''bar'')]),
      environ_fclose = 0,
      stack_buf = replicate 1048576 0,
      stack_c = 0,
      environment = Map.empty,
      prctl_ret = 0,
      fifo = \<lparr>open_ret = 3, write_ret = 2, close_ret = 0\<rparr>,
      execvp_ok = True\<rparr>"

section \<open>Properties\<close>

subsection \<open>C strings\<close>

lemma cstr_no_NUL: "0 \<notin> set (cstr m)"
  by (auto simp: cstr_def dest: set_takeWhileD)

lemma cstr_append_NUL: "0 \<notin> set xs \<Longrightarrow> cstr (xs @ 0 # ys) = xs"
  by (induction xs) (auto simp: cstr_def)

lemma cstr_Nil [simp]: "cstr [] = []"
  by (simp add: cstr_def)

lemma cstr_id: "0 \<notin> set xs \<Longrightarrow> cstr xs = xs"
  by (induction xs) (auto simp: cstr_def)

lemma cstr_eq_take:
  assumes "k < length m" and "m ! k = 0" and "0 \<notin> set (take k m)"
  shows "cstr m = take k m"
proof -
  have "m = take k m @ 0 # drop (Suc k) m"
    using assms(1,2) id_take_nth_drop [of k m] by simp
  then have "cstr m = cstr (take k m @ 0 # drop (Suc k) m)"
    by simp
  then show ?thesis
    using assms(3) by (simp add: cstr_append_NUL)
qed

subsection \<open>Characters and buffers\<close>

lemma to_char_uint [simp]: "to_char (uint b) = b"
  by (simp add: to_char_def)

lemma to_char_EOF [simp]: "to_char EOF = 255"
  by (simp add: to_char_def EOF_def)

lemma sint_EOF_iff: "sint (b :: byte) = EOF \<longleftrightarrow> b = 255"
proof
  assume "sint b = EOF"
  then have "sint b = sint (255 :: byte)"
    by (simp add: EOF_def)
  then show "b = 255"
    by (rule signed_word_eqI)
next
  assume "b = 255"
  then show "sint b = EOF"
    by (simp add: EOF_def)
qed

lemma store_Nil [simp]: "store m i [] = m"
  by (simp add: store_def)

lemma length_store: "i + length xs \<le> length m \<Longrightarrow> length (store m i xs) = length m"
  by (simp add: store_def)

lemma store_Cons: "i < length m \<Longrightarrow> store (m[i := x]) (Suc i) xs = store m i (x # xs)"
  by (simp add: store_def take_Suc_conv_app_nth)

lemma store_snoc:
  "i + length xs < length m \<Longrightarrow> (store m i xs)[i + length xs := x] = store m i (xs @ [x])"
  apply (simp add: store_def list_update_append)
  apply (metis Cons_nth_drop_Suc list_update_code(2))
  done

subsection \<open>The loop that reads one record\<close>

text \<open>One pass through the body of the loop, by the byte that is read.\<close>

lemma read_record_stop:
  assumes "int i < buflen"
  shows "read_record buflen i buf val c (0 # rest) = Break (buf[i := 0]) val 0 rest"
    and "read_record buflen i buf val c (255 # rest) = Break (buf[i := 0]) val 255 rest"
    and "read_record buflen i buf val c [] = Break (buf[i := 0]) val 255 []"
  using assms by (simp_all add: read_record.simps [of buflen i] sint_EOF_iff to_char_def EOF_def)

lemma read_record_full:
  assumes "int i = buflen - 1" and "b \<noteq> 0" and "b \<noteq> 255"
  shows "read_record buflen i buf val c (b # rest) = Return E2BIG rest"
  using assms by (simp add: read_record.simps [of buflen i] sint_EOF_iff to_char_def)

lemma read_record_equals:
  assumes "int i < buflen - 1"
  shows "read_record buflen i buf None c (EQUALS # rest) =
         read_record buflen (Suc i) (buf[i := 0]) (Some (Suc i)) EQUALS rest"
  using assms by (simp add: read_record.simps [of buflen i] sint_EOF_iff to_char_def EQUALS_def)

lemma read_record_byte:
  assumes "int i < buflen - 1" and "b \<noteq> 0" and "b \<noteq> 255" and "val = None \<longrightarrow> b \<noteq> EQUALS"
  shows "read_record buflen i buf val c (b # rest) =
         read_record buflen (Suc i) (buf[i := b]) val b rest"
  using assms by (auto simp: read_record.simps [of buflen i] sint_EOF_iff to_char_def)

text \<open>A run of bytes that are neither a terminator nor the first equals sign.\<close>

lemma read_record_bytes:
  assumes "0 \<notin> set xs" and "255 \<notin> set xs" and "val = None \<longrightarrow> EQUALS \<notin> set xs"
    and "int (i + length xs) < buflen" and "buflen \<le> int (length buf)"
  shows "read_record buflen i buf val c (xs @ rest) =
         read_record buflen (i + length xs) (store buf i xs) val (last (c # xs)) rest"
  using assms
proof (induction xs arbitrary: i buf c)
  case Nil
  then show ?case by simp
next
  case (Cons x xs)
  have "read_record buflen i buf val c (x # xs @ rest) =
        read_record buflen (Suc i) (buf[i := x]) val x (xs @ rest)"
    using Cons.prems by (intro read_record_byte) auto
  also have "\<dots> = read_record buflen (Suc i + length xs) (store (buf[i := x]) (Suc i) xs) val
                       (last (x # xs)) rest"
    using Cons.prems by (intro Cons.IH) simp_all
  also have "store (buf[i := x]) (Suc i) xs = store buf i (x # xs)"
    using Cons.prems by (intro store_Cons) simp
  finally show ?case by simp
qed

text \<open>A whole record \<open>k=v\<close>, up to the byte that ends it.\<close>

lemma read_record_pair:
  assumes "0 \<notin> set k" and "255 \<notin> set k" and "EQUALS \<notin> set k"
    and "0 \<notin> set v" and "255 \<notin> set v"
    and "int (length k + length v + 1) < buflen" and "buflen \<le> int (length buf)"
  shows "read_record buflen 0 buf None c (k @ EQUALS # v @ tail) =
         read_record buflen (length k + length v + 1) (store buf 0 (k @ 0 # v))
           (Some (Suc (length k))) (last (EQUALS # v)) tail"
proof -
  have "read_record buflen 0 buf None c (k @ EQUALS # v @ tail) =
        read_record buflen (0 + length k) (store buf 0 k) None (last (c # k)) (EQUALS # v @ tail)"
    using assms by (intro read_record_bytes) auto
  also have "\<dots> = read_record buflen (Suc (length k)) ((store buf 0 k)[length k := 0])
                       (Some (Suc (length k))) EQUALS (v @ tail)"
    using assms by (simp add: read_record_equals)
  also have "(store buf 0 k)[length k := 0] = store buf 0 (k @ [0])"
    using assms store_snoc [of 0 k buf 0] by simp
  also have "read_record buflen (Suc (length k)) (store buf 0 (k @ [0]))
               (Some (Suc (length k))) EQUALS (v @ tail) =
             read_record buflen (Suc (length k) + length v) (store (store buf 0 (k @ [0])) (Suc (length k)) v)
               (Some (Suc (length k))) (last (EQUALS # v)) tail"
    using assms by (intro read_record_bytes) (auto simp: length_store)
  also have "store (store buf 0 (k @ [0])) (Suc (length k)) v = store buf 0 (k @ 0 # v)"
    using assms by (simp add: store_def add.commute)
  finally show ?thesis
    by (simp add: add.commute add.left_commute)
qed

lemma pair_in_buffer:
  assumes "0 \<notin> set k" and "0 \<notin> set v"
  shows "cstr (store buf 0 (k @ 0 # v @ [0])) = k"
    and "cstr (drop (Suc (length k)) (store buf 0 (k @ 0 # v @ [0]))) = v"
  using assms by (simp_all add: store_def cstr_append_NUL)

lemma read_record_pair_end:
  assumes "0 \<notin> set k" and "255 \<notin> set k" and "EQUALS \<notin> set k"
    and "0 \<notin> set v" and "255 \<notin> set v"
    and "int (length k + length v + 1) < buflen" and "buflen \<le> int (length buf)"
  shows "read_record buflen 0 buf None c (k @ EQUALS # v @ 0 # rest) =
         Break (store buf 0 (k @ 0 # v @ [0])) (Some (Suc (length k))) 0 rest"
    and "read_record buflen 0 buf None c (k @ EQUALS # v @ 255 # rest) =
         Break (store buf 0 (k @ 0 # v @ [0])) (Some (Suc (length k))) 255 rest"
    and "read_record buflen 0 buf None c (k @ EQUALS # v) =
         Break (store buf 0 (k @ 0 # v @ [0])) (Some (Suc (length k))) 255 []"
proof -
  have fill: "(store buf 0 (k @ 0 # v))[length k + length v + 1 := 0] = store buf 0 (k @ 0 # v @ [0])"
    using assms store_snoc [of 0 "k @ 0 # v" buf 0] by simp
  show "read_record buflen 0 buf None c (k @ EQUALS # v @ 0 # rest) =
         Break (store buf 0 (k @ 0 # v @ [0])) (Some (Suc (length k))) 0 rest"
    using assms fill by (simp add: read_record_pair read_record_stop)
  show "read_record buflen 0 buf None c (k @ EQUALS # v @ 255 # rest) =
         Break (store buf 0 (k @ 0 # v @ [0])) (Some (Suc (length k))) 255 rest"
    using assms fill by (simp add: read_record_pair read_record_stop)
  show "read_record buflen 0 buf None c (k @ EQUALS # v) =
         Break (store buf 0 (k @ 0 # v @ [0])) (Some (Suc (length k))) 255 []"
    using assms fill read_record_pair [of k v buflen buf c "[]"] by (simp add: read_record_stop)
qed

subsection \<open>The loop over the records\<close>

lemma setenv_key: "k \<noteq> [] \<Longrightarrow> EQUALS \<notin> set k \<Longrightarrow> setenv k v e = Some (e(k \<mapsto> v))"
  by (simp add: setenv_def)

lemma sint_NUL: "sint (0 :: byte) \<noteq> EOF"
  by (simp add: EOF_def)

lemma load_loop_done: "load_loop errno buflen 255 buf f e = (None, e, f)"
  by (simp add: load_loop.simps [of errno buflen 255] EOF_def)

lemma load_loop_pair:
  assumes "k \<noteq> []" and "0 \<notin> set k" and "255 \<notin> set k" and "EQUALS \<notin> set k"
    and "0 \<notin> set v" and "255 \<notin> set v"
    and "int (length k + length v + 1) < buflen" and "buflen \<le> int (length buf)"
    and "sint c \<noteq> EOF"
  shows "load_loop 0 buflen c buf (k @ EQUALS # v @ 0 # rest) e =
         load_loop 0 buflen 0 (store buf 0 (k @ 0 # v @ [0])) rest (e(k \<mapsto> v))"
    and "load_loop 0 buflen c buf (k @ EQUALS # v @ 255 # rest) e = (None, e(k \<mapsto> v), rest)"
    and "load_loop 0 buflen c buf (k @ EQUALS # v) e = (None, e(k \<mapsto> v), [])"
  using assms
  by (simp_all add: load_loop.simps [of 0 buflen c] read_record_pair_end pair_in_buffer
      setenv_key load_loop_done)

lemma load_loop_empty:
  assumes "sint c \<noteq> EOF"
  shows "load_loop 0 buflen c buf [] e = (Some EINVAL, e, [])"
proof (cases "0 < buflen")
  case True
  then have "read_record buflen 0 buf None c [] = Break (buf[0 := 0]) None 255 []"
    by (simp add: read_record_stop)
  then show ?thesis
    using assms by (simp add: load_loop.simps [of 0 buflen c])
next
  case False
  then have "read_record buflen 0 buf None c [] = Break buf None c []"
    by (simp add: read_record.simps [of buflen 0])
  then show ?thesis
    using assms by (simp add: load_loop.simps [of 0 buflen c])
qed

lemma load_loop_bare:
  assumes "0 \<notin> set r" and "255 \<notin> set r" and "EQUALS \<notin> set r"
    and "int (length r) < buflen" and "buflen \<le> int (length buf)" and "sint c \<noteq> EOF"
  shows "load_loop 0 buflen c buf (r @ 0 # rest) e = (Some EINVAL, e, rest)"
    and "load_loop 0 buflen c buf r e = (Some EINVAL, e, [])"
proof -
  have run: "read_record buflen 0 buf None c (r @ tail) =
             read_record buflen (length r) (store buf 0 r) None (last (c # r)) tail" for tail
    using assms read_record_bytes [of r None 0 buflen buf c tail] by simp
  show "load_loop 0 buflen c buf (r @ 0 # rest) e = (Some EINVAL, e, rest)"
    using assms by (simp add: load_loop.simps [of 0 buflen c] run read_record_stop)
  show "load_loop 0 buflen c buf r e = (Some EINVAL, e, [])"
    using assms run [of "[]"] by (simp add: load_loop.simps [of 0 buflen c] read_record_stop)
qed

lemma load_loop_stream:
  assumes "list_all (loadable buflen) rs" and "buflen \<le> int (length buf)" and "sint c \<noteq> EOF"
  shows "load_loop 0 buflen c buf (environ_stream rs) e = (Some EINVAL, e ++ map_of (rev rs), [])"
  using assms
proof (induction rs arbitrary: c buf e)
  case Nil
  then show ?case
    by (simp add: environ_stream_def load_loop_empty)
next
  case (Cons kv rs)
  obtain k v where kv: "kv = (k, v)"
    by (cases kv)
  let ?buf = "store buf 0 (k @ 0 # v @ [0])"
  have ok: "k \<noteq> []" "0 \<notin> set k" "255 \<notin> set k" "EQUALS \<notin> set k" "0 \<notin> set v" "255 \<notin> set v"
    "int (length k + length v + 1) < buflen"
    using Cons.prems(1) by (simp_all add: kv loadable_def)
  have "load_loop 0 buflen c buf (environ_stream (kv # rs)) e =
        load_loop 0 buflen c buf (k @ EQUALS # v @ 0 # environ_stream rs) e"
    by (simp add: environ_stream_def record_bytes_def kv)
  also have "\<dots> = load_loop 0 buflen 0 ?buf (environ_stream rs) (e(k \<mapsto> v))"
    using ok Cons.prems by (intro load_loop_pair(1)) simp_all
  also have "\<dots> = (Some EINVAL, e(k \<mapsto> v) ++ map_of (rev rs), [])"
  proof (rule Cons.IH)
    show "list_all (loadable buflen) rs"
      using Cons.prems(1) by simp
    show "buflen \<le> int (length ?buf)"
      using ok Cons.prems(2) by (simp add: length_store)
    show "sint (0 :: byte) \<noteq> EOF"
      by (rule sint_NUL)
  qed
  also have "e(k \<mapsto> v) ++ map_of (rev rs) = e ++ map_of (rev (kv # rs))"
    by (rule ext) (simp add: kv map_add_def split: option.splits)
  finally show ?case .
qed

subsection \<open>A byte 255 in the file\<close>







subsection \<open>The loop that reads the lines\<close>

lemma length_store_ge: "length m \<le> length (store m 0 xs)"
  by (simp add: store_def)

lemma fgets_read_line:
  "NL \<notin> set l \<Longrightarrow> length l < k \<Longrightarrow> fgets_read k (l @ NL # rest) = l @ [NL]"
proof (induction l arbitrary: k)
  case Nil
  then show ?case by (cases k) simp_all
next
  case (Cons x xs)
  then show ?case by (cases k) auto
qed

lemma fgets_line:
  assumes "text_line buflen l"
  shows "fgets buf buflen (l @ NL # rest) = Some (store buf 0 (l @ [NL, 0]), rest)"
proof -
  have "fgets_read (nat (buflen - 1)) (l @ NL # rest) = l @ [NL]"
    using assms by (intro fgets_read_line) (auto simp: text_line_def)
  then show ?thesis
    using assms by (simp add: fgets_def text_line_def)
qed

lemma fgets_end: "2 \<le> buflen \<Longrightarrow> fgets buf buflen [] = None"
  by (simp add: fgets_def)

lemma strndup_line:
  assumes "0 \<notin> set l"
  shows "strndup (store buf 0 (l @ [NL, 0])) (minus_one (strlen (store buf 0 (l @ [NL, 0])))) = l"
proof -
  have "0 \<notin> set (l @ [NL])"
    using assms by (simp add: NL_def)
  then have "cstr ((l @ [NL]) @ 0 # drop (length l + 2) buf) = l @ [NL]"
    by (rule cstr_append_NUL)
  then have "cstr (store buf 0 (l @ [NL, 0])) = l @ [NL]"
    by (simp add: store_def)
  then show ?thesis
    by (simp add: strndup_def strlen_def minus_one_def)
qed

lemma readlines_loop_lines:
  assumes "list_all (text_line buflen) ls" and "2 \<le> buflen"
    and "int (n + length ls) < maxlines" and "n + length ls < length lines"
  shows "\<exists>buf'. length buf \<le> length buf' \<and>
           readlines_loop maxlines buflen n buf (cmdline_stream ls) lines =
           Some (n + length ls, buf', [], take n lines @ map Some ls @ drop (n + length ls) lines)"
  using assms
proof (induction ls arbitrary: n buf lines)
  case Nil
  then show ?case
    by (simp add: readlines_loop.simps [of maxlines buflen n] cmdline_stream_def fgets_end)
next
  case (Cons l ls)
  let ?buf = "store buf 0 (l @ [NL, 0])"
  have l: "text_line buflen l" and ls: "list_all (text_line buflen) ls"
    using Cons.prems(1) by simp_all
  have "\<exists>buf'. length ?buf \<le> length buf' \<and>
          readlines_loop maxlines buflen (Suc n) ?buf (cmdline_stream ls) (lines[n := Some l]) =
          Some (Suc n + length ls, buf', [],
            take (Suc n) (lines[n := Some l]) @ map Some ls @ drop (Suc n + length ls) (lines[n := Some l]))"
    using ls Cons.prems by (intro Cons.IH) simp_all
  then obtain buf' where len: "length ?buf \<le> length buf'"
    and rest: "readlines_loop maxlines buflen (Suc n) ?buf (cmdline_stream ls) (lines[n := Some l]) =
          Some (Suc n + length ls, buf', [],
            take (Suc n) (lines[n := Some l]) @ map Some ls @ drop (Suc n + length ls) (lines[n := Some l]))"
    by blast
  have array: "take (Suc n) (lines[n := Some l]) @ map Some ls @ drop (Suc n + length ls) (lines[n := Some l]) =
               take n lines @ map Some (l # ls) @ drop (n + length (l # ls)) lines"
    using Cons.prems(4) by (simp add: take_Suc_conv_app_nth)
  have "readlines_loop maxlines buflen n buf (cmdline_stream (l # ls)) lines =
        readlines_loop maxlines buflen (Suc n) ?buf (cmdline_stream ls) (lines[n := Some l])"
    using Cons.prems l
    by (simp add: readlines_loop.simps [of maxlines buflen n] cmdline_stream_def fgets_line
        strndup_line text_line_def poke_def)
  then show ?case
    using rest array len length_store_ge [of buf "l @ [NL, 0]"] by auto
qed

subsection \<open>The steps of main\<close>

lemma argv_of_lines: "argv_of (map Some ls @ None # rest) = ls"
  by (induction ls) (simp_all add: argv_of_def)

lemma readlines_lines:
  assumes "list_all (text_line buflen) ls" and "2 \<le> buflen"
    and "int (length ls) < maxlines" and "length ls < length lines"
  shows "\<exists>buf'. length buf \<le> length buf' \<and>
           readlines (Some (cmdline_stream ls)) 0 buf buflen lines maxlines =
             Some (int (length ls), buf', map Some ls @ None # drop (Suc (length ls)) lines)"
proof -
  obtain buf' where len: "length buf \<le> length buf'" and
    loop: "readlines_loop maxlines buflen 0 buf (cmdline_stream ls) lines =
       Some (0 + length ls, buf', [], take 0 lines @ map Some ls @ drop (0 + length ls) lines)"
    using readlines_loop_lines [of buflen ls 0 maxlines lines buf] assms by auto
  have "(map Some ls @ drop (length ls) lines)[length ls := None] =
        map Some ls @ None # drop (Suc (length ls)) lines"
    using assms(4) by (simp add: list_update_append Cons_nth_drop_Suc [symmetric])
  then have "readlines (Some (cmdline_stream ls)) 0 buf buflen lines maxlines =
        Some (int (length ls), buf', map Some ls @ None # drop (Suc (length ls)) lines)"
    using loop assms(4) by (simp add: readlines_def poke_def)
  then show ?thesis
    using len by blast
qed

lemma readlines_no_lines:
  "readlines (Some []) 0 buf 1048576 (replicate 256 None) 2048 =
     Some (0, buf, (replicate 256 None)[0 := None])"
  by (simp add: readlines_def readlines_loop.simps [of 2048 1048576 0] fgets_def poke_def)

lemma process_name_defined: "pname \<noteq> [] \<Longrightarrow> process_name pname cid \<noteq> None"
  by (cases pname) (auto simp: process_name_def strncpy_def poke_def store_def strlen_def min_def)

lemma main_run:
  assumes "length (argv w) = 2"
    and "readlines (cmdline_txt w) (cmdline_fclose w) (stack_buf w) 1048576 (replicate 256 None) 2048 =
           Some (r, buf, args)"
    and "r \<noteq> - 1"
    and "load_environment (environ_txt w) (environ_fclose w) 0 (stack_c w) buf 1048576 (environment w) =
           (r', e, rest)"
    and "r' \<noteq> - 1"
  shows "main w =
     (if fst (writefifo (fifo w) (argv w ! 1)) = - 1
      then Exit 1 ((if prctl_ret w = - 1 then [''failed to set process name''] else []) @
             [''failed to write syncfifo''])
      else (case args ! 0 of
              None \<Rightarrow> Undefined ''execvp(NULL, args)''
            | Some file \<Rightarrow>
                if execvp_ok w
                then Exec (argv_of args) e (if prctl_ret w = - 1 then [''failed to set process name''] else [])
                else Exit 0 (if prctl_ret w = - 1 then [''failed to set process name''] else [])))"
proof -
  obtain p where "process_name (replicate 16 0) (argv w ! 1) = Some p"
    using process_name_defined [of "replicate 16 0" "argv w ! 1"] by auto
  then show ?thesis
    using assms by (simp add: main_def Let_def)
qed

lemma end_to_end_cmdline:
  "\<exists>buf'. 1048576 \<le> length buf' \<and>
     readlines (Some (cmdline_stream [bytes ''/bin/echo'', bytes ''hello''])) 0 (replicate 1048576 0)
       1048576 (replicate 256 None) 2048 =
     Some (2, buf', map Some [bytes ''/bin/echo'', bytes ''hello''] @ None # drop 3 (replicate 256 None))"
proof -
  have ok: "list_all (text_line 1048576) [bytes ''/bin/echo'', bytes ''hello'']"
    by (simp add: text_line_def bytes_def NL_def)
  have len: "length [bytes ''/bin/echo'', bytes ''hello''] = 2" "Suc 2 = 3"
    by simp_all
  show ?thesis
    using readlines_lines [OF ok, of 2048 "replicate 256 None" "replicate 1048576 0"]
    unfolding len by simp
qed

lemma end_to_end_environ:
  assumes "1048576 \<le> length buf"
  shows "load_environment (Some (environ_stream [(bytes ''FOO'', bytes ''bar'')])) 0 0 0 buf 1048576
           Map.empty = (EINVAL, [bytes ''FOO'' \<mapsto> bytes ''bar''], [])"
proof -
  have "list_all (loadable 1048576) [(bytes ''FOO'', bytes ''bar'')]"
    by (simp add: loadable_def bytes_def EQUALS_def)
  then have "load_loop 0 1048576 0 buf (environ_stream [(bytes ''FOO'', bytes ''bar'')]) Map.empty =
        (Some EINVAL, Map.empty ++ map_of (rev [(bytes ''FOO'', bytes ''bar'')]), [])"
    using assms by (intro load_loop_stream) (simp_all add: EOF_def)
  then show ?thesis
    by (simp add: load_environment_def)
qed

subsection \<open>SyncNotifier: writefifo\<close>

text \<open>
  Claim C10, as amended. Whenever \<^verbatim>\<open>open\<close> succeeded and \<^verbatim>\<open>write\<close> did not return
  the error indicator -1, \<^verbatim>\<open>writefifo\<close> returns the status of \<^verbatim>\<open>close\<close> (so it
  reports success when \<^verbatim>\<open>close\<close> succeeds), whatever number of bytes \<^verbatim>\<open>write\<close>
  took: the pipe gets only the first \<open>write_ret\<close> bytes of the container id, and a
  short write is neither detected nor treated as a failure.
\<close>

theorem writefifo_short_write:
  assumes "open_ret os \<noteq> - 1" and "write_ret os \<noteq> - 1"
  shows "fst (writefifo os msg) = close_ret os \<and>
         snd (writefifo os msg) = take (nat (write_ret os)) (cstr msg)"
  using assms by (simp add: writefifo_def)

text \<open>
  Witness: \<^verbatim>\<open>write\<close> takes 3 of the 5 bytes of the id \<^verbatim>\<open>abcde\<close> and \<^verbatim>\<open>close\<close>
  succeeds: \<^verbatim>\<open>writefifo\<close> returns 0 and the reader gets \<^verbatim>\<open>abc\<close>.
\<close>

theorem writefifo_short_write_witness:
  "fst (writefifo \<lparr>open_ret = 3, write_ret = 3, close_ret = 0\<rparr> (bytes ''abcde'')) = 0 \<and>
   snd (writefifo \<lparr>open_ret = 3, write_ret = 3, close_ret = 0\<rparr> (bytes ''abcde'')) = bytes ''abc''"
  using writefifo_short_write [of "\<lparr>open_ret = 3, write_ret = 3, close_ret = 0\<rparr>" "bytes ''abcde''"]
  by (simp add: bytes_def cstr_def)

text \<open>
  The claim as it was stated fails where \<^verbatim>\<open>close\<close> fails: \<^verbatim>\<open>write\<close> returned 3, not
  the error indicator, and \<^verbatim>\<open>writefifo\<close> still reports -1.
\<close>

theorem writefifo_close_fails:
  "write_ret \<lparr>open_ret = 3, write_ret = 3, close_ret = - 1\<rparr> \<noteq> - 1 \<and>
   fst (writefifo \<lparr>open_ret = 3, write_ret = 3, close_ret = - 1\<rparr> (bytes ''abcde'')) = - 1"
  by (simp add: writefifo_def)

subsection \<open>IdentityMarker: the process name\<close>

text \<open>
  Claim C8. For every container identifier, of whatever length, the two statements
  that fill the 16-byte array \<open>pname\<close> stay inside it (the result is \<open>Some\<close> array
  of 16 bytes), leave a NUL in its last byte, and leave in it the string made of the
  first 15 bytes of the identifier (the whole identifier when it is shorter).
\<close>

theorem process_name_truncated:
  assumes "length pname = 16"
  shows "\<exists>p. process_name pname cid = Some p \<and> length p = 16 \<and> p ! 15 = 0 \<and>
             cstr p = take 15 (cstr cid)"
proof -
  define s where "s = cstr cid"
  define q where "q = take 16 s @ replicate (16 - length s) 0"
  have s0: "0 \<notin> set s"
    by (simp add: s_def cstr_no_NUL)
  have lq: "length q = 16"
    by (simp add: q_def)
  have copied: "strncpy pname cid 16 = Some q"
    using assms by (simp add: strncpy_def store_def strlen_def q_def s_def)
  have named: "process_name pname cid = Some (q[15 := 0])"
    using assms copied lq by (simp add: process_name_def poke_def)
  have "cstr (q[15 := 0]) = take 15 s"
  proof (cases "length s < 15")
    case True
    have "cstr (q[15 := 0]) = take (length s) (q[15 := 0])"
    proof (rule cstr_eq_take)
      show "length s < length (q[15 := 0])"
        using True lq by simp
      show "q[15 := 0] ! length s = 0"
        using True by (simp add: q_def nth_append nth_list_update)
      show "0 \<notin> set (take (length s) (q[15 := 0]))"
        using True s0 by (simp add: q_def)
    qed
    then show ?thesis
      using True by (simp add: q_def)
  next
    case False
    have "cstr (q[15 := 0]) = take 15 (q[15 := 0])"
    proof (rule cstr_eq_take)
      show "15 < length (q[15 := 0])"
        using lq by simp
      show "q[15 := 0] ! 15 = 0"
        using lq by simp
      show "0 \<notin> set (take 15 (q[15 := 0]))"
        using False s0 by (auto simp: q_def dest: in_set_takeD)
    qed
    then show ?thesis
      using False by (simp add: q_def)
  qed
  then show ?thesis
    using named lq by (simp add: s_def)
qed

text \<open>Witness: an identifier of 20 characters, as \<^verbatim>\<open>main\<close> calls it.\<close>

theorem process_name_truncated_witness:
  "length (replicate 16 (0 :: byte)) = 16 \<and>
   (\<exists>p. process_name (replicate 16 0) (bytes ''0123456789abcdefghij'') = Some p \<and>
        length p = 16 \<and> p ! 15 = 0 \<and> cstr p = bytes ''0123456789abcde'')"
  using process_name_truncated [of "replicate 16 0" "bytes ''0123456789abcdefghij''"]
  by (simp add: bytes_def cstr_def)

subsection \<open>EnvironmentLoader: load\_environment\<close>

text \<open>
  Claim C4. An empty environment file is legal and \<^verbatim>\<open>load_environment\<close> should
  report success on it. The code does not: when the loop is entered (the first value
  of \<open>c\<close> is not \<^verbatim>\<open>EOF\<close>), the first \<^verbatim>\<open>getc\<close> gives \<^verbatim>\<open>EOF\<close>, the inner loop is
  left with \<open>value\<close> still NULL, and the function returns \<^verbatim>\<open>EINVAL\<close>, the code of
  an invalid record. It installs nothing.
\<close>

theorem load_environment_empty_file:
  assumes "sint c0 \<noteq> EOF"
  shows "load_environment (Some []) fclose_ret 0 c0 buf buflen e = (EINVAL, e, [])"
  using assms by (simp add: load_environment_def load_loop_empty)

text \<open>The failing input: the empty file, read the way \<^verbatim>\<open>main\<close> reads it.\<close>

theorem load_environment_empty_file_witness:
  "sint (0 :: byte) \<noteq> EOF \<and>
   load_environment (Some []) 0 0 0 (replicate 1048576 0) 1048576 Map.empty = (22, Map.empty, [])"
  using load_environment_empty_file [of 0 0 "replicate 1048576 0" 1048576 Map.empty]
  by (simp add: EOF_def EINVAL_def)

text \<open>
  Claim C5, as amended. For every stream of records \<open>k=v\<close>, each followed by a NUL,
  in which every key is non-empty, no record holds the byte 255 and every record is
  shorter than the buffer, \<^verbatim>\<open>load_environment\<close> (its loop entered, \<^verbatim>\<open>errno\<close> clear)
  leaves the process environment updated by exactly the pairs of the stream: a key
  of the stream is bound to the value of its last record, every other variable is
  as it was.
\<close>

theorem load_environment_installs:
  assumes "list_all (loadable buflen) rs" and "buflen \<le> int (length buf)" and "sint c0 \<noteq> EOF"
  shows "fst (snd (load_environment (Some (environ_stream rs)) fclose_ret 0 c0 buf buflen e)) =
         e ++ map_of (rev rs)"
  using assms by (simp add: load_environment_def load_loop_stream)

text \<open>Witness: the stream \<^verbatim>\<open>A=1\0B=2\0A=3\0\<close> leaves \<open>A\<close> as 3 and \<open>B\<close> as 2.\<close>

theorem load_environment_installs_witness:
  "list_all (loadable 16) [(bytes ''A'', bytes ''1''), (bytes ''B'', bytes ''2''), (bytes ''A'', bytes ''3'')] \<and>
   (16 :: int) \<le> int (length (replicate 16 (0 :: byte))) \<and> sint (0 :: byte) \<noteq> EOF \<and>
   fst (snd (load_environment
     (Some (environ_stream [(bytes ''A'', bytes ''1''), (bytes ''B'', bytes ''2''), (bytes ''A'', bytes ''3'')]))
     0 0 0 (replicate 16 0) 16 Map.empty)) (bytes ''A'') = Some (bytes ''3'') \<and>
   fst (snd (load_environment
     (Some (environ_stream [(bytes ''A'', bytes ''1''), (bytes ''B'', bytes ''2''), (bytes ''A'', bytes ''3'')]))
     0 0 0 (replicate 16 0) 16 Map.empty)) (bytes ''B'') = Some (bytes ''2'')"
  using load_environment_installs [of 16
      "[(bytes ''A'', bytes ''1''), (bytes ''B'', bytes ''2''), (bytes ''A'', bytes ''3'')]"
      "replicate 16 0" 0 0 Map.empty]
  by (simp add: loadable_def bytes_def EQUALS_def EOF_def)

text \<open>
  The claim as it was stated, for every stream of NUL-terminated records with an
  equals sign, fails where the code refuses a record. With 8 bytes of buffer the
  stream \<^verbatim>\<open>LONGKEY=value\0\<close> does not fit: the call returns \<^verbatim>\<open>E2BIG\<close> and
  \<open>LONGKEY\<close> is not installed. The stream \<^verbatim>\<open>=v\0\<close> has an empty key, which
  \<^verbatim>\<open>setenv\<close> rejects: the call returns -1 and installs nothing.
\<close>

theorem load_environment_refuses:
  "fst (load_environment (Some (environ_stream [(bytes ''LONGKEY'', bytes ''value'')]))
          0 0 0 (replicate 8 0) 8 Map.empty) = E2BIG \<and>
   fst (snd (load_environment (Some (environ_stream [(bytes ''LONGKEY'', bytes ''value'')]))
          0 0 0 (replicate 8 0) 8 Map.empty)) (bytes ''LONGKEY'') = None \<and>
   load_environment (Some (environ_stream [([], bytes ''v'')])) 0 0 0 (replicate 8 0) 8 Map.empty =
     (- 1, Map.empty, [])"
proof -
  have "read_record 8 0 (replicate 8 0) None 0 (bytes ''LONGKEY'' @ EQUALS # bytes ''value'' @ [0]) =
        read_record 8 (0 + length (bytes ''LONGKEY'')) (store (replicate 8 0) 0 (bytes ''LONGKEY''))
          None (last (0 # bytes ''LONGKEY'')) (EQUALS # bytes ''value'' @ [0])"
    by (intro read_record_bytes) (simp_all add: bytes_def EQUALS_def)
  also have "\<dots> = Return E2BIG (bytes ''value'' @ [0])"
    by (intro read_record_full) (simp_all add: bytes_def EQUALS_def)
  finally have long: "load_environment (Some (environ_stream [(bytes ''LONGKEY'', bytes ''value'')]))
          0 0 0 (replicate 8 0) 8 Map.empty = (E2BIG, Map.empty, bytes ''value'' @ [0])"
    by (simp add: load_environment_def environ_stream_def record_bytes_def
        load_loop.simps [of 0 8 0] EOF_def)
  have "read_record 8 0 (replicate 8 0) None 0 ([] @ EQUALS # bytes ''v'' @ 0 # []) =
        Break (store (replicate 8 0) 0 ([] @ 0 # bytes ''v'' @ [0])) (Some (Suc (length ([] :: byte list)))) 0 []"
    by (intro read_record_pair_end(1)) (simp_all add: bytes_def)
  then have "load_environment (Some (environ_stream [([], bytes ''v'')])) 0 0 0 (replicate 8 0) 8 Map.empty =
     (- 1, Map.empty, [])"
    by (simp add: load_environment_def environ_stream_def record_bytes_def
        load_loop.simps [of 0 8 0 "replicate 8 0"] EOF_def setenv_def store_def cstr_def)
  then show ?thesis
    using long by simp
qed

text \<open>
  Claim C6, as amended. A record with a non-empty key, shorter than the buffer and
  without a byte 255 is split at its first equals sign only. Let the record be
  \<open>k=v\<close>, where \<open>k\<close> has no equals sign and \<open>v\<close> may have any number of them.
  When a NUL ends the record, loading the file is loading the rest of the file in
  the environment in which \<open>k\<close> is \<open>v\<close>; when the end of the file ends it, the load
  finishes with \<open>k\<close> set to \<open>v\<close>. In both cases the value is installed whole,
  equals signs included.
\<close>

theorem first_equals_splits:
  assumes "k \<noteq> []" and "EQUALS \<notin> set k" and "0 \<notin> set k" and "255 \<notin> set k"
    and "0 \<notin> set v" and "255 \<notin> set v"
    and "int (length k + length v + 1) < buflen" and "buflen \<le> int (length buf)"
    and "sint c0 \<noteq> EOF"
  shows "load_environment (Some (k @ EQUALS # v @ 0 # rest)) fclose_ret 0 c0 buf buflen e =
           load_environment (Some rest) fclose_ret 0 0 (store buf 0 (k @ 0 # v @ [0])) buflen
             (e(k \<mapsto> v)) \<and>
         load_environment (Some (k @ EQUALS # v)) fclose_ret 0 c0 buf buflen e =
           (fclose_ret, e(k \<mapsto> v), [])"
  using assms by (simp add: load_environment_def load_loop_pair)

text \<open>
  Witness: the record \<^verbatim>\<open>OPTS=a=b=c\<close>, ended by a NUL and ended by the end of the
  file.
\<close>

theorem first_equals_splits_witness:
  "load_environment (Some (bytes ''OPTS=a=b=c'' @ [0])) 0 0 0 (replicate 16 0) 16 Map.empty =
     (EINVAL, [bytes ''OPTS'' \<mapsto> bytes ''a=b=c''], []) \<and>
   load_environment (Some (bytes ''OPTS=a=b=c'')) 0 0 0 (replicate 16 0) 16 Map.empty =
     (0, [bytes ''OPTS'' \<mapsto> bytes ''a=b=c''], [])"
  using first_equals_splits [of "bytes ''OPTS''" "bytes ''a=b=c''" 16 "replicate 16 0" 0 "[]" 0 Map.empty]
  by (simp add: bytes_def EQUALS_def EOF_def load_environment_def load_loop_empty)

text \<open>
  The claim as it was stated, for every record with more than one equals sign,
  fails where the code refuses the record. The record \<^verbatim>\<open>=a=b\<close> has an empty key,
  which \<^verbatim>\<open>setenv\<close> rejects: the call returns -1 and the value \<^verbatim>\<open>a=b\<close> is not
  installed. With 8 bytes of buffer the record \<^verbatim>\<open>OPTS=a=b=c\<close> does not fit: the call
  returns \<^verbatim>\<open>E2BIG\<close> at its eighth byte and installs nothing.
\<close>

theorem first_equals_record_refused:
  "load_environment (Some (bytes ''=a=b'' @ [0])) 0 0 0 (replicate 8 0) 8 Map.empty =
     (- 1, Map.empty, []) \<and>
   load_environment (Some (bytes ''OPTS=a=b=c'' @ [0])) 0 0 0 (replicate 8 0) 8 Map.empty =
     (E2BIG, Map.empty, bytes ''=c'' @ [0])"
proof -
  have "read_record 8 0 (replicate 8 0) None 0 ([] @ EQUALS # bytes ''a=b'' @ 0 # []) =
        Break (store (replicate 8 0) 0 ([] @ 0 # bytes ''a=b'' @ [0]))
          (Some (Suc (length ([] :: byte list)))) 0 []"
    by (intro read_record_pair_end(1)) (simp_all add: bytes_def)
  then have empty_key:
    "load_environment (Some (bytes ''=a=b'' @ [0])) 0 0 0 (replicate 8 0) 8 Map.empty =
       (- 1, Map.empty, [])"
    by (simp add: load_environment_def bytes_def EQUALS_def
        load_loop.simps [of 0 8 0 "replicate 8 0"] EOF_def setenv_def store_def cstr_def)
  have "read_record 8 0 (replicate 8 0) None 0
          (bytes ''OPTS'' @ EQUALS # bytes ''a='' @ bytes ''b=c'' @ [0]) =
        read_record 8 (length (bytes ''OPTS'') + length (bytes ''a='') + 1)
          (store (replicate 8 0) 0 (bytes ''OPTS'' @ 0 # bytes ''a=''))
          (Some (Suc (length (bytes ''OPTS'')))) (last (EQUALS # bytes ''a='')) (bytes ''b=c'' @ [0])"
    by (intro read_record_pair) (simp_all add: bytes_def EQUALS_def)
  also have "\<dots> = Return E2BIG (bytes ''=c'' @ [0])"
    by (simp add: bytes_def read_record_full)
  finally have too_long:
    "load_environment (Some (bytes ''OPTS=a=b=c'' @ [0])) 0 0 0 (replicate 8 0) 8 Map.empty =
       (E2BIG, Map.empty, bytes ''=c'' @ [0])"
    by (simp add: load_environment_def bytes_def EQUALS_def
        load_loop.simps [of 0 8 0 "replicate 8 0"] EOF_def)
  show ?thesis
    using empty_key too_long by simp
qed



subsection \<open>ArgumentLoader: readlines\<close>

text \<open>
  Claim C7. Let the command-line file hold \<open>N\<close> lines, each ended by a newline,
  each a line of text that fits the line buffer, and let \<open>N\<close> be less than
  \<open>maxlines\<close> (and the array have a slot for every token and for the sentinel).
  Then \<^verbatim>\<open>readlines\<close> returns \<open>N\<close>, the first \<open>N\<close> slots of the array hold the lines
  without their newlines, in order, and the slot behind them holds the null pointer.
\<close>

theorem readlines_tokens:
  assumes "list_all (text_line buflen) ls" and "2 \<le> buflen"
    and "int (length ls) < maxlines" and "length ls < length lines"
  shows "\<exists>buf' lines'.
           readlines (Some (cmdline_stream ls)) 0 buf buflen lines maxlines =
             Some (int (length ls), buf', lines') \<and>
           take (length ls) lines' = map Some ls \<and> lines' ! length ls = None"
proof -
  obtain buf' where
    "readlines_loop maxlines buflen 0 buf (cmdline_stream ls) lines =
       Some (0 + length ls, buf', [], take 0 lines @ map Some ls @ drop (0 + length ls) lines)"
    using readlines_loop_lines [of buflen ls 0 maxlines lines buf] assms by auto
  then have "readlines (Some (cmdline_stream ls)) 0 buf buflen lines maxlines =
        Some (int (length ls), buf', (map Some ls @ drop (length ls) lines)[length ls := None])"
    using assms(4) by (simp add: readlines_def poke_def)
  moreover have "take (length ls) ((map Some ls @ drop (length ls) lines)[length ls := None]) = map Some ls"
    by simp
  moreover have "(map Some ls @ drop (length ls) lines)[length ls := None] ! length ls = None"
    using assms(4) by (simp add: nth_list_update)
  ultimately show ?thesis
    by blast
qed

text \<open>Witness: the two lines \<^verbatim>\<open>/bin/echo\<close> and \<^verbatim>\<open>hello\<close>.\<close>

theorem readlines_tokens_witness:
  "\<exists>buf' lines'.
     readlines (Some (bytes ''/bin/echo'' @ [NL] @ bytes ''hello'' @ [NL])) 0 (replicate 32 0) 32
       (replicate 4 None) 4 = Some (2, buf', lines') \<and>
     take 2 lines' = [Some (bytes ''/bin/echo''), Some (bytes ''hello'')] \<and> lines' ! 2 = None"
proof -
  have len: "length [bytes ''/bin/echo'', bytes ''hello''] = 2"
    by simp
  have ok: "list_all (text_line 32) [bytes ''/bin/echo'', bytes ''hello'']"
    by (simp add: text_line_def bytes_def NL_def)
  show ?thesis
    using readlines_tokens [OF ok, of 4 "replicate 4 None" "replicate 32 0"]
    unfolding len by (simp add: cmdline_stream_def)
qed

subsection \<open>The whole program\<close>

text \<open>
  Claim C1. The claim wants a load that fails with the invalid-record or the
  capacity condition to end the process at once, with a diagnostic and a non-zero
  status, and no partly installed environment to be accepted. \<^verbatim>\<open>main\<close> tests the
  result of \<^verbatim>\<open>load_environment\<close> against -1 only. When the call returns \<^verbatim>\<open>E2BIG\<close>
  or \<^verbatim>\<open>EINVAL\<close> the run goes on as after a success: it writes to the pipe and calls
  \<^verbatim>\<open>execvp\<close>, and the new program gets the environment \<open>e\<close> as the failed load
  left it.
\<close>

theorem load_error_not_fatal:
  assumes "length (argv w) = 2"
    and "readlines (cmdline_txt w) (cmdline_fclose w) (stack_buf w) 1048576 (replicate 256 None) 2048 =
           Some (r, buf, args)"
    and "r \<noteq> - 1"
    and "load_environment (environ_txt w) (environ_fclose w) 0 (stack_c w) buf 1048576 (environment w) =
           (r', e, rest)"
    and "r' = E2BIG \<or> r' = EINVAL"
  shows "main w =
     (if fst (writefifo (fifo w) (argv w ! 1)) = - 1
      then Exit 1 ((if prctl_ret w = - 1 then [''failed to set process name''] else []) @
             [''failed to write syncfifo''])
      else (case args ! 0 of
              None \<Rightarrow> Undefined ''execvp(NULL, args)''
            | Some file \<Rightarrow>
                if execvp_ok w
                then Exec (argv_of args) e (if prctl_ret w = - 1 then [''failed to set process name''] else [])
                else Exit 0 (if prctl_ret w = - 1 then [''failed to set process name''] else [])))"
proof -
  have "r' \<noteq> - 1"
    using assms(5) by (auto simp: E2BIG_def EINVAL_def)
  then show ?thesis
    using assms(1-4) by (rule main_run [rotated -1])
qed

text \<open>
  The failing input: the environment file \<^verbatim>\<open>A=1\0BROKEN\0\<close>. The load returns
  \<^verbatim>\<open>EINVAL\<close> at the record without an equals sign; \<^verbatim>\<open>/bin/echo hello\<close> is
  executed all the same, with \<open>A=1\<close> in its environment.
\<close>

theorem load_error_not_fatal_witness:
  "main (end_to_end\<lparr>environ_txt := Some (bytes ''A=1'' @ [0] @ bytes ''BROKEN'' @ [0])\<rparr>) =
     Exec [bytes ''/bin/echo'', bytes ''hello''] [bytes ''A'' \<mapsto> bytes ''1''] []"
proof -
  let ?w = "end_to_end\<lparr>environ_txt := Some (bytes ''A=1'' @ [0] @ bytes ''BROKEN'' @ [0])\<rparr>"
  let ?args = "map Some [bytes ''/bin/echo'', bytes ''hello''] @ None # drop 3 (replicate 256 None)"
  obtain buf where buf: "1048576 \<le> length buf" and
    lines: "readlines (cmdline_txt ?w) (cmdline_fclose ?w) (stack_buf ?w) 1048576 (replicate 256 None) 2048 =
       Some (2, buf, ?args)"
    using end_to_end_cmdline by (auto simp: end_to_end_def)
  let ?buf = "store buf 0 (bytes ''A'' @ 0 # bytes ''1'' @ [0])"
  have "load_loop 0 1048576 0 buf (bytes ''A'' @ EQUALS # bytes ''1'' @ 0 # bytes ''BROKEN'' @ [0]) Map.empty =
        load_loop 0 1048576 0 ?buf (bytes ''BROKEN'' @ [0]) [bytes ''A'' \<mapsto> bytes ''1'']"
    using buf by (intro load_loop_pair(1)) (simp_all add: bytes_def EQUALS_def EOF_def)
  also have "\<dots> = (Some EINVAL, [bytes ''A'' \<mapsto> bytes ''1''], [])"
    using buf load_loop_bare(1) [of "bytes ''BROKEN''" 1048576 ?buf 0 "[]" "[bytes ''A'' \<mapsto> bytes ''1'']"]
    by (simp add: bytes_def EQUALS_def EOF_def length_store)
  finally have env: "load_environment (environ_txt ?w) (environ_fclose ?w) 0 (stack_c ?w) buf 1048576
      (environment ?w) = (EINVAL, [bytes ''A'' \<mapsto> bytes ''1''], [])"
    by (simp add: load_environment_def end_to_end_def bytes_def EQUALS_def)
  have "length (argv ?w) = 2"
    by (simp add: end_to_end_def)
  from load_error_not_fatal [OF this lines _ env] show ?thesis
    by (simp add: end_to_end_def writefifo_def argv_of_def)
qed

text \<open>
  Claim C2. The claim wants a failed \<^verbatim>\<open>execvp\<close> to be reported and to end the
  process with a non-zero status, so that status 0 is never this program's own.
  Nothing follows the call of \<^verbatim>\<open>execvp\<close> in \<^verbatim>\<open>main\<close>: every run that would have
  replaced the image ends, when \<^verbatim>\<open>execvp\<close> fails instead, with status 0 and no
  diagnostic beyond those already printed.
\<close>

theorem exec_failure_exits_0:
  assumes "main (w\<lparr>execvp_ok := True\<rparr>) = Exec a e d"
  shows "main (w\<lparr>execvp_ok := False\<rparr>) = Exit 0 d"
  using assms
  by (auto simp: main_def Let_def split: if_splits option.splits prod.splits)

text \<open>
  The failing input: the end-to-end run with an \<^verbatim>\<open>execvp\<close> that fails (no
  \<^verbatim>\<open>/bin/echo\<close>, say). The process exits with status 0 and prints nothing.
\<close>

theorem exec_failure_exits_0_witness:
  "main end_to_end = Exec [bytes ''/bin/echo'', bytes ''hello''] [bytes ''FOO'' \<mapsto> bytes ''bar''] [] \<and>
   main (end_to_end\<lparr>execvp_ok := False\<rparr>) = Exit 0 []"
proof -
  let ?args = "map Some [bytes ''/bin/echo'', bytes ''hello''] @ None # drop 3 (replicate 256 None)"
  obtain buf where buf: "1048576 \<le> length buf" and
    lines: "readlines (cmdline_txt end_to_end) (cmdline_fclose end_to_end) (stack_buf end_to_end)
       1048576 (replicate 256 None) 2048 = Some (2, buf, ?args)"
    using end_to_end_cmdline by (auto simp: end_to_end_def)
  have env: "load_environment (environ_txt end_to_end) (environ_fclose end_to_end) 0 (stack_c end_to_end)
      buf 1048576 (environment end_to_end) = (EINVAL, [bytes ''FOO'' \<mapsto> bytes ''bar''], [])"
    using end_to_end_environ [OF buf] by (simp add: end_to_end_def)
  have "length (argv end_to_end) = 2"
    by (simp add: end_to_end_def)
  from main_run [OF this lines _ env]
  have run: "main end_to_end =
      Exec [bytes ''/bin/echo'', bytes ''hello''] [bytes ''FOO'' \<mapsto> bytes ''bar''] []"
    by (simp add: end_to_end_def writefifo_def argv_of_def EINVAL_def)
  moreover have "end_to_end\<lparr>execvp_ok := True\<rparr> = end_to_end"
    by (simp add: end_to_end_def)
  ultimately show ?thesis
    using exec_failure_exits_0 [of end_to_end "[bytes ''/bin/echo'', bytes ''hello'']"
        "[bytes ''FOO'' \<mapsto> bytes ''bar'']" "[]"]
    by simp
qed

text \<open>
  Claim C3. The claim wants an empty command-line file to be a fatal configuration
  error. \<^verbatim>\<open>readlines\<close> returns 0 for it, which \<^verbatim>\<open>main\<close> does not tell from any
  other count: the run loads the environment, writes to the pipe, and calls
  \<^verbatim>\<open>execvp(args[0], args)\<close> with \<open>args[0]\<close> the null pointer. The only exits on the
  way are those of the environment file and the pipe.
\<close>

theorem empty_cmdline_not_detected:
  assumes "length (argv w) = 2" and "cmdline_txt w = Some []" and "cmdline_fclose w = 0"
  shows "main w =
     (if fst (load_environment (environ_txt w) (environ_fclose w) 0 (stack_c w) (stack_buf w)
                1048576 (environment w)) = - 1
      then Exit 1 [''failed to read environment file'']
      else if fst (writefifo (fifo w) (argv w ! 1)) = - 1
      then Exit 1 ((if prctl_ret w = - 1 then [''failed to set process name''] else []) @
             [''failed to write syncfifo''])
      else Undefined ''execvp(NULL, args)'')"
proof -
  obtain p where "process_name (replicate 16 0) (argv w ! 1) = Some p"
    using process_name_defined [of "replicate 16 0" "argv w ! 1"] by auto
  then show ?thesis
    using assms by (simp add: main_def Let_def readlines_no_lines split: prod.splits)
qed

text \<open>The failing input: the end-to-end run with an empty command-line file.\<close>

theorem empty_cmdline_not_detected_witness:
  "main (end_to_end\<lparr>cmdline_txt := Some []\<rparr>) = Undefined ''execvp(NULL, args)''"
proof -
  let ?w = "end_to_end\<lparr>cmdline_txt := Some []\<rparr>"
  have "load_environment (environ_txt ?w) (environ_fclose ?w) 0 (stack_c ?w) (stack_buf ?w)
      1048576 (environment ?w) = (EINVAL, [bytes ''FOO'' \<mapsto> bytes ''bar''], [])"
    using end_to_end_environ [of "replicate 1048576 0"] by (simp add: end_to_end_def)
  then show ?thesis
    using empty_cmdline_not_detected [of ?w]
    by (simp add: end_to_end_def writefifo_def EINVAL_def)
qed

end
